theory Spec2Isabelle
  imports Complex_Main "HOL-Library.Word"
begin

unbundle bit_operations_syntax

section \<open>The signal of examples/1d\_signal.py\<close>

text \<open>
  The script computes one list and writes one file:
  \<^verbatim>\<open>
  signal = [math.exp(-0.5 * (((2048.0 - t)/512.0)**2.0)) * math.sin(t/100.) for t in range(4092)]
  with open(os.path.join(os.path.dirname(__file__), '1d_signal.bson'), 'bw') as signal_f:
      signal_f.write(bson.BSON.encode({'ex': signal, '_version': 0}))
  \<close>
  Python floats are read as real numbers: \<open>math.exp\<close> is \<open>exp\<close>, \<open>math.sin\<close> is \<open>sin\<close>,
  the division of the integer \<open>t\<close> by a float literal is real division of \<open>real t\<close>, and
  \<open>x ** 2.0\<close> is the square \<open>x ^ 2\<close> (the float power with exponent 2.0 is defined for a
  negative base and is its square; \<open>powr\<close> is not). Rounding is not part of this model.
\<close>

text \<open>The first factor of the comprehension's body, at index \<open>t\<close>.\<close>

definition envelope :: "nat \<Rightarrow> real" where
  "envelope t = exp (- 0.5 * (((2048.0 - real t) / 512.0) ^ 2))"

text \<open>The second factor of the comprehension's body, at index \<open>t\<close>.\<close>

definition carrier :: "nat \<Rightarrow> real" where
  "carrier t = sin (real t / 100)"

text \<open>The list comprehension over \<open>range(4092)\<close>.\<close>

definition signal :: "real list" where
  "signal = map (\<lambda>t. envelope t * carrier t) [0..<4092]"

text \<open>
  The words of the specification, for comparison with the code: a Gaussian with centre
  \<open>mu\<close> and standard deviation \<open>sigma\<close> (peak value 1), and a sinusoid that advances by
  \<open>step\<close> radians per index.
\<close>

definition spec_gaussian :: "real \<Rightarrow> real \<Rightarrow> real \<Rightarrow> real" where
  "spec_gaussian mu sigma x = exp (- ((x - mu) ^ 2) / (2 * sigma ^ 2))"

definition spec_sinusoid :: "real \<Rightarrow> nat \<Rightarrow> real" where
  "spec_sinusoid step t = sin (real t * step)"

section \<open>The document and its encoder\<close>

text \<open>
  The values that occur in the dictionary literal \<open>{'ex': signal, '_version': 0}\<close>: a
  float, an int, a list. The dictionary is an association list in the order of the
  literal.
\<close>

datatype py_value = PyFloat real | PyInt int | PyList "py_value list"

type_synonym py_dict = "(string \<times> py_value) list"

definition document :: py_dict where
  "document = [(''ex'', PyList (map PyFloat signal)), (''_version'', PyInt 0)]"

text \<open>
  \<open>bson.BSON.encode\<close> belongs to a library outside the repository. In the run of the script
  it is a parameter \<open>encode :: py_dict \<Rightarrow> 'b list\<close>, \<open>'b\<close> being the type of a byte.
\<close>

section \<open>The BSON format\<close>

text \<open>
  The encoder of the library (PyMongo's \<open>bson\<close>) and a decoder, for the three kinds of
  value of the dictionary, as the BSON specification lays them out:
  \<^verbatim>\<open>
  document ::= int32 e_list 0x00      (int32: the number of bytes of the document)
  element  ::= 0x01 cstring double    (8 bytes, little-endian)
             | 0x04 cstring document  (array: the keys are "0", "1", ...)
             | 0x10 cstring int32     (4 bytes, little-endian, two's complement)
             | 0x12 cstring int64     (8 bytes, little-endian, two's complement)
  cstring  ::= byte* 0x00             (no byte of the string is 0x00)
  \<close>
  A byte is an 8-bit word.
\<close>

type_synonym byte = "8 word"

text \<open>
  What the encoder raises: \<open>InvalidDocument\<close> for a key with a NUL character,
  \<open>OverflowError\<close> for an int beyond 8 bytes, and the \<open>struct.error\<close> of packing a length
  beyond 4 bytes.
\<close>

datatype bson_error = InvalidDocument | OverflowError | StructError

text \<open>The \<open>n\<close> low bytes of a word, lowest first, and the word of such bytes.\<close>

fun le_bytes :: "nat \<Rightarrow> 'a::len word \<Rightarrow> byte list" where
  "le_bytes 0 w = []"
| "le_bytes (Suc n) w = ucast w # le_bytes n (drop_bit 8 w)"

fun le_word :: "byte list \<Rightarrow> 'a::len word" where
  "le_word [] = 0"
| "le_word (b # bs) = ucast b OR push_bit 8 (le_word bs)"

text \<open>\<open>struct.pack("<i", i)\<close> and the unpacking of 4 and of 8 bytes as signed integers.\<close>

definition pack_int :: "int \<Rightarrow> bson_error + byte list" where
  "pack_int i =
     (if - (2 ^ 31) \<le> i \<and> i < 2 ^ 31 then Inr (le_bytes 4 (word_of_int i :: 32 word))
      else Inl StructError)"

definition unpack_int :: "byte list \<Rightarrow> int" where
  "unpack_int bs = sint (le_word bs :: 32 word)"

definition unpack_long :: "byte list \<Rightarrow> int" where
  "unpack_long bs = sint (le_word bs :: 64 word)"

text \<open>A key is a string of bytes (its UTF-8 encoding), written with a final 0x00.\<close>

definition byte_of_char :: "char \<Rightarrow> byte" where
  "byte_of_char c = word_of_nat (of_char c)"

definition char_of_byte :: "byte \<Rightarrow> char" where
  "char_of_byte b = char_of (unat b)"

definition make_c_string :: "string \<Rightarrow> byte list" where
  "make_c_string s = map byte_of_char s @ [0x00]"

definition make_name :: "string \<Rightarrow> bson_error + byte list" where
  "make_name key = (if CHR 0x00 \<in> set key then Inl InvalidDocument else Inr (make_c_string key))"

text \<open>The key of the element of index \<open>n\<close> of an array: \<open>str(n)\<close>.\<close>

fun decimal :: "nat \<Rightarrow> string" where
  "decimal n =
     (if n < 10 then [char_of (48 + n)] else decimal (n div 10) @ [char_of (48 + n mod 10)])"

declare decimal.simps [simp del]

text \<open>
  One element, from its name as a cstring and its value, and the elements of a list from
  index \<open>k\<close> on. The 8 bytes of a float are those of the 64-bit word \<open>pack_float x\<close>: the
  IEEE 754 double of \<open>x\<close> in the library, a parameter here. An int of 4 bytes is an int32,
  a longer one an int64.
\<close>

fun name_value_to_bson :: "(real \<Rightarrow> 64 word) \<Rightarrow> byte list \<Rightarrow> py_value \<Rightarrow> bson_error + byte list"
  and encode_list_items :: "(real \<Rightarrow> 64 word) \<Rightarrow> nat \<Rightarrow> py_value list \<Rightarrow> bson_error + byte list"
where
  "name_value_to_bson pack_float name (PyFloat x) = Inr (0x01 # name @ le_bytes 8 (pack_float x))"
| "name_value_to_bson pack_float name (PyInt i) =
     (if - (2 ^ 31) \<le> i \<and> i \<le> 2 ^ 31 - 1
      then Inr (0x10 # name @ le_bytes 4 (word_of_int i :: 32 word))
      else if - (2 ^ 63) \<le> i \<and> i < 2 ^ 63
      then Inr (0x12 # name @ le_bytes 8 (word_of_int i :: 64 word))
      else Inl OverflowError)"
| "name_value_to_bson pack_float name (PyList vs) =
     (case encode_list_items pack_float 0 vs of
        Inl e \<Rightarrow> Inl e
      | Inr data \<Rightarrow>
          (case pack_int (int (length data) + 5) of
             Inl e \<Rightarrow> Inl e
           | Inr obj_size \<Rightarrow> Inr (0x04 # name @ obj_size @ data @ [0x00])))"
| "encode_list_items pack_float k [] = Inr []"
| "encode_list_items pack_float k (v # vs) =
     (case name_value_to_bson pack_float (make_c_string (decimal k)) v of
        Inl e \<Rightarrow> Inl e
      | Inr b \<Rightarrow>
          (case encode_list_items pack_float (Suc k) vs of
             Inl e \<Rightarrow> Inl e
           | Inr bs \<Rightarrow> Inr (b @ bs)))"

definition element_to_bson :: "(real \<Rightarrow> 64 word) \<Rightarrow> string \<Rightarrow> py_value \<Rightarrow> bson_error + byte list" where
  "element_to_bson pack_float key v =
     (case make_name key of
        Inl e \<Rightarrow> Inl e
      | Inr name \<Rightarrow> name_value_to_bson pack_float name v)"

fun encode_elements :: "(real \<Rightarrow> 64 word) \<Rightarrow> py_dict \<Rightarrow> bson_error + byte list" where
  "encode_elements pack_float [] = Inr []"
| "encode_elements pack_float ((key, v) # kvs) =
     (case element_to_bson pack_float key v of
        Inl e \<Rightarrow> Inl e
      | Inr b \<Rightarrow>
          (case encode_elements pack_float kvs of
             Inl e \<Rightarrow> Inl e
           | Inr bs \<Rightarrow> Inr (b @ bs)))"

text \<open>At top level the encoder writes the entry of key \<open>_id\<close> first, if there is one.\<close>

definition id_first :: "py_dict \<Rightarrow> py_dict" where
  "id_first doc =
     (case map_of doc ''_id'' of
        None \<Rightarrow> doc
      | Some v \<Rightarrow> (''_id'', v) # filter (\<lambda>(key, _). key \<noteq> ''_id'') doc)"

definition BSON_encode :: "(real \<Rightarrow> 64 word) \<Rightarrow> py_dict \<Rightarrow> bson_error + byte list" where
  "BSON_encode pack_float doc =
     (case encode_elements pack_float (id_first doc) of
        Inl e \<Rightarrow> Inl e
      | Inr encoded \<Rightarrow>
          (case pack_int (int (length encoded) + 5) of
             Inl e \<Rightarrow> Inl e
           | Inr obj_size \<Rightarrow> Inr (obj_size @ encoded @ [0x00])))"

text \<open>
  The decoder. A cstring ends at the first 0x00. The value of an element is read after its
  tag; an array is a document whose keys are dropped. \<open>None\<close> stands for the decoder's
  \<open>InvalidBSON\<close> and for a tag outside the four above.
\<close>

definition get_c_string :: "byte list \<Rightarrow> (string \<times> byte list) option" where
  "get_c_string bs =
     (if 0x00 \<in> set bs
      then Some (map char_of_byte (takeWhile (\<lambda>b. b \<noteq> 0x00) bs), tl (dropWhile (\<lambda>b. b \<noteq> 0x00) bs))
      else None)"

definition decode_value ::
  "(byte list \<Rightarrow> py_dict option) \<Rightarrow> (64 word \<Rightarrow> real) \<Rightarrow> byte \<Rightarrow> byte list \<Rightarrow> (py_value \<times> byte list) option"
where
  "decode_value decode_body unpack_float tag rest =
     (if tag = 0x01 then
        (if length rest < 8 then None
         else Some (PyFloat (unpack_float (le_word (take 8 rest))), drop 8 rest))
      else if tag = 0x10 then
        (if length rest < 4 then None
         else Some (PyInt (unpack_int (take 4 rest)), drop 4 rest))
      else if tag = 0x12 then
        (if length rest < 8 then None
         else Some (PyInt (unpack_long (take 8 rest)), drop 8 rest))
      else if tag = 0x04 then
        (if length rest < 4 then None
         else
           (let obj_size = unpack_int (take 4 rest)
            in if obj_size < 5 \<or> int (length rest) < obj_size then None
               else if rest ! (nat obj_size - 1) \<noteq> 0x00 then None
               else
                 (case decode_body (take (nat obj_size - 5) (drop 4 rest)) of
                    None \<Rightarrow> None
                  | Some items \<Rightarrow> Some (PyList (map snd items), drop (nat obj_size) rest))))
      else None)"

text \<open>
  The elements of a document body, until its end. The first argument bounds the number of
  elements read, nested ones included; a body of \<open>n\<close> bytes has fewer than \<open>n\<close>.
\<close>

fun decode_elements :: "nat \<Rightarrow> (64 word \<Rightarrow> real) \<Rightarrow> byte list \<Rightarrow> py_dict option" where
  "decode_elements n unpack_float [] = Some []"
| "decode_elements 0 unpack_float (tag # bs) = None"
| "decode_elements (Suc n) unpack_float (tag # bs) =
     (case get_c_string bs of
        None \<Rightarrow> None
      | Some (name, rest) \<Rightarrow>
          (case decode_value (\<lambda>body. decode_elements n unpack_float body) unpack_float tag rest of
             None \<Rightarrow> None
           | Some (v, rest') \<Rightarrow>
               (case decode_elements n unpack_float rest' of
                  None \<Rightarrow> None
                | Some kvs \<Rightarrow> Some ((name, v) # kvs))))"

definition BSON_decode :: "(64 word \<Rightarrow> real) \<Rightarrow> byte list \<Rightarrow> py_dict option" where
  "BSON_decode unpack_float bs =
     (if length bs < 5 then None
      else if unpack_int (take 4 bs) \<noteq> int (length bs) \<or> last bs \<noteq> 0x00 then None
      else decode_elements (length bs) unpack_float (take (length bs - 5) (drop 4 bs)))"

text \<open>
  What a value becomes when each of its floats \<open>x\<close> is replaced by \<open>r x\<close>: with \<open>r\<close> the
  packing of a float into 8 bytes followed by the unpacking, the value read back.
\<close>

fun reread :: "(real \<Rightarrow> real) \<Rightarrow> py_value \<Rightarrow> py_value" where
  "reread r (PyFloat x) = PyFloat (r x)"
| "reread r (PyInt i) = PyInt i"
| "reread r (PyList vs) = PyList (map (reread r) vs)"

section \<open>Paths\<close>

text \<open>
  \<open>os.path.dirname\<close> and \<open>os.path.join\<close> are the functions of the standard library's
  \<open>posixpath\<close>, written out here for a script and one more path component:
  \<^verbatim>\<open>
  def dirname(p):
      i = p.rfind(sep) + 1
      head = p[:i]
      if head and head != sep*len(head):
          head = head.rstrip(sep)
      return head

  def join(a, b):
      if b.startswith(sep):      path = b
      elif not a or a.endswith(sep): path = a + b
      else:                      path = a + sep + b
      return path

  def basename(p):
      i = p.rfind(sep) + 1
      return p[i:]
  \<close>
\<close>

definition sep :: char where
  "sep = CHR ''/''"

text \<open>\<open>p[:p.rfind(sep) + 1]\<close>: the path up to and including its last separator.\<close>

definition upto_last_sep :: "string \<Rightarrow> string" where
  "upto_last_sep p = rev (dropWhile (\<lambda>c. c \<noteq> sep) (rev p))"

definition rstrip_sep :: "string \<Rightarrow> string" where
  "rstrip_sep s = rev (dropWhile (\<lambda>c. c = sep) (rev s))"

definition dirname :: "string \<Rightarrow> string" where
  "dirname p =
     (let head = upto_last_sep p
      in if head \<noteq> [] \<and> head \<noteq> replicate (length head) sep then rstrip_sep head else head)"

definition basename :: "string \<Rightarrow> string" where
  "basename p = rev (takeWhile (\<lambda>c. c \<noteq> sep) (rev p))"

definition join :: "string \<Rightarrow> string \<Rightarrow> string" where
  "join a b =
     (if b \<noteq> [] \<and> hd b = sep then b
      else if a = [] \<or> last a = sep then a @ b
      else a @ sep # b)"

text \<open>The path the script opens, from its own path \<open>__file__\<close>.\<close>

definition output_path :: "string \<Rightarrow> string" where
  "output_path script = join (dirname script) ''1d_signal.bson''"

section \<open>Files\<close>

text \<open>
  The state the script can touch: the content of every existing file, the paths of the
  file objects that are open, and the log of the file operations made so far, oldest first.
\<close>

datatype file_op = OpOpen string | OpWrite string | OpClose string

record 'b world =
  files :: "string \<rightharpoonup> 'b list"
  handles :: "string list"
  oplog :: "file_op list"

text \<open>
  The one exception the script can meet is the \<open>OSError\<close> of a file operation, with its
  error number. Whether an operation fails is decided outside the script: \<open>open_error\<close>
  gives the error that opening a path for writing raises, if any, and \<open>write_error\<close> the
  error that writing (and flushing) the data to a path raises, if any, with the number of
  bytes that reached the file before it.
\<close>

datatype exn = OSError nat

record 'b env =
  open_error :: "string \<Rightarrow> exn option"
  write_error :: "string \<Rightarrow> 'b list \<Rightarrow> (exn \<times> nat) option"

definition logged :: "file_op \<Rightarrow> 'b world \<Rightarrow> 'b world" where
  "logged opn w = w\<lparr>oplog := oplog w @ [opn]\<rparr>"

text \<open>
  \<open>open(p, 'bw')\<close>: raises, or creates the file if it is missing, truncates it, and
  returns a file object, which is known by its path. In binary mode the data is written
  as it is.
\<close>

definition open_bw :: "'b env \<Rightarrow> string \<Rightarrow> 'b world \<Rightarrow> (exn + string) \<times> 'b world" where
  "open_bw ev p w =
     (let w0 = logged (OpOpen p) w
      in case open_error ev p of
           Some e \<Rightarrow> (Inl e, w0)
         | None \<Rightarrow> (Inr p, w0\<lparr>files := (files w0)(p \<mapsto> []), handles := p # handles w0\<rparr>))"

text \<open>
  \<open>f.write(data)\<close> on the file object \<open>f\<close>: appends to what the file holds, and returns
  the number of bytes written.
\<close>

definition file_write :: "'b env \<Rightarrow> string \<Rightarrow> 'b list \<Rightarrow> 'b world \<Rightarrow> (exn + nat) \<times> 'b world" where
  "file_write ev f data w =
     (let w0 = logged (OpWrite f) w;
          old = (case files w0 f of None \<Rightarrow> [] | Some c \<Rightarrow> c)
      in case write_error ev f data of
           Some (e, n) \<Rightarrow> (Inl e, w0\<lparr>files := (files w0)(f \<mapsto> old @ take n data)\<rparr>)
         | None \<Rightarrow> (Inr (length data), w0\<lparr>files := (files w0)(f \<mapsto> old @ data)\<rparr>))"

definition file_close :: "string \<Rightarrow> 'b world \<Rightarrow> 'b world" where
  "file_close f w = (logged (OpClose f) w)\<lparr>handles := remove1 f (handles w)\<rparr>"

text \<open>
  The \<open>with\<close> statement of the script. An error of \<open>open\<close> leaves the block unentered; an
  error of \<open>write\<close> leaves it through the file object's \<open>__exit__\<close>, which closes the file,
  as the normal exit does. The script has no \<open>try\<close>: the error is the result of the run.
\<close>

definition main :: "(py_dict \<Rightarrow> 'b list) \<Rightarrow> 'b env \<Rightarrow> string \<Rightarrow> 'b world \<Rightarrow> (exn + unit) \<times> 'b world" where
  "main encode ev script w =
     (case open_bw ev (output_path script) w of
        (Inl e, w1) \<Rightarrow> (Inl e, w1)
      | (Inr signal_f, w1) \<Rightarrow>
          (case file_write ev signal_f (encode document) w1 of
             (Inl e, w2) \<Rightarrow> (Inl e, file_close signal_f w2)
           | (Inr n, w2) \<Rightarrow> (Inr (), file_close signal_f w2)))"

text \<open>The path can be written when neither operation on it fails.\<close>

definition writable :: "'b env \<Rightarrow> string \<Rightarrow> 'b list \<Rightarrow> bool" where
  "writable ev p data = (open_error ev p = None \<and> write_error ev p data = None)"

section \<open>Properties of the signal\<close>

lemma signal_nth: "t < 4092 \<Longrightarrow> signal ! t = envelope t * carrier t"
  by (simp add: signal_def)

lemma envelope_gaussian: "envelope t = spec_gaussian 2048 512 (real t)"
proof -
  have "- 0.5 * (((2048.0 - real t) / 512.0) ^ 2) = - ((real t - 2048) ^ 2) / (2 * 512 ^ 2)"
    by (simp add: power2_eq_square field_simps)
  then show ?thesis
    by (simp only: envelope_def spec_gaussian_def)
qed

lemma envelope_pos: "0 < envelope t"
  by (simp add: envelope_def)

lemma envelope_le_1: "envelope t \<le> 1"
proof -
  have "0 \<le> ((2048.0 - real t) / 512.0) ^ 2"
    by (rule zero_le_power2)
  then have "- 0.5 * (((2048.0 - real t) / 512.0) ^ 2) \<le> 0"
    by simp
  then show ?thesis
    unfolding envelope_def by (simp only: exp_le_one_iff)
qed

lemma envelope_centre: "envelope 2048 = 1"
  by (simp add: envelope_def)

lemma carrier_abs_le_1: "\<bar>carrier t\<bar> \<le> 1"
  by (simp add: carrier_def)

lemma signal_abs_le_1: "x \<in> set signal \<Longrightarrow> \<bar>x\<bar> \<le> 1"
proof -
  assume "x \<in> set signal"
  then obtain t where "x = envelope t * carrier t"
    by (auto simp add: signal_def)
  moreover have "\<bar>envelope t * carrier t\<bar> = envelope t * \<bar>carrier t\<bar>"
    using envelope_pos [of t] by (simp add: abs_mult)
  moreover have "envelope t * \<bar>carrier t\<bar> \<le> 1 * 1"
    by (rule mult_mono) (use envelope_le_1 carrier_abs_le_1 in simp_all)
  ultimately show ?thesis
    by simp
qed

text \<open>
  C1: for every index \<open>t\<close> in \<open>[0, 4092)\<close> the sample at position \<open>t\<close> is
  \<open>exp(-0.5 * ((2048.0 - t)/512.0)^2) * sin(t/100.0)\<close>, which is the Gaussian envelope
  centred at index 2048 with scale 512 times the sinusoid of angular step 1/100 radian per
  index.
\<close>

theorem C1_sample_formula:
  assumes "t < 4092"
  shows "signal ! t = exp (- 0.5 * ((2048.0 - real t) / 512.0) ^ 2) * sin (real t / 100.0)
       \<and> signal ! t = spec_gaussian 2048 512 (real t) * spec_sinusoid (1 / 100) t"
proof
  show "signal ! t = exp (- 0.5 * ((2048.0 - real t) / 512.0) ^ 2) * sin (real t / 100.0)"
    using assms by (simp add: signal_nth envelope_def carrier_def)
next
  have "carrier t = spec_sinusoid (1 / 100) t"
    by (simp add: carrier_def spec_sinusoid_def)
  then show "signal ! t = spec_gaussian 2048 512 (real t) * spec_sinusoid (1 / 100) t"
    using assms by (simp only: signal_nth envelope_gaussian)
qed

theorem C1_sample_formula_witness:
  "(3::nat) < 4092
   \<and> signal ! 3 = exp (- 0.5 * ((2048.0 - real 3) / 512.0) ^ 2) * sin (real 3 / 100.0)
   \<and> signal ! 3 = spec_gaussian 2048 512 (real 3) * spec_sinusoid (1 / 100) 3"
  using C1_sample_formula [of 3] by simp

text \<open>
  C2: the generated list has exactly 4092 elements, and its indices are 0 to 4091: the
  element at index \<open>t\<close> is the one computed from \<open>t\<close>.
\<close>

theorem C2_signal_length:
  "length signal = 4092 \<and> (\<forall>t < 4092. signal ! t = envelope t * carrier t)"
  by (simp add: signal_def)

theorem C2_signal_length_witness:
  "length signal = 4092 \<and> signal ! 4091 = envelope 4091 * carrier 4091"
  using C2_signal_length by simp

text \<open>
  C6: at the centre index 2048 the envelope is exactly 1, which is its largest value, and
  the sample is \<open>sin(20.48)\<close> times that 1.
\<close>

theorem C6_sample_at_centre:
  "signal ! 2048 = 1.0 * sin 20.48 \<and> envelope 2048 = 1.0 \<and> (\<forall>t. envelope t \<le> envelope 2048)"
proof -
  have "signal ! 2048 = envelope 2048 * carrier 2048"
    by (rule signal_nth) simp
  moreover have "carrier 2048 = sin 20.48"
    by (simp add: carrier_def)
  ultimately show ?thesis
    by (simp add: envelope_centre envelope_le_1)
qed

text \<open>
  C9: every one of the 4092 samples has absolute value at most 1, because the envelope lies
  in \<open>(0, 1]\<close> and the sine in \<open>[-1, 1]\<close>.
\<close>

theorem C9_sample_bound:
  assumes "t < 4092"
  shows "\<bar>signal ! t\<bar> \<le> 1"
proof -
  have "\<bar>envelope t * carrier t\<bar> = envelope t * \<bar>carrier t\<bar>"
    using envelope_pos [of t] by (simp add: abs_mult)
  also have "\<dots> \<le> 1 * 1"
    by (rule mult_mono) (use envelope_le_1 carrier_abs_le_1 in simp_all)
  finally show ?thesis
    using assms by (simp add: signal_nth)
qed

theorem C9_sample_bound_witness: "(4091::nat) < 4092 \<and> \<bar>signal ! 4091\<bar> \<le> 1"
  using C9_sample_bound [of 4091] by simp

text \<open>
  C10: the sample at index 0 is exactly 0: the sine of \<open>0/100\<close> is 0, and the envelope
  factor there, \<open>exp(-8)\<close>, is positive and finite.
\<close>

theorem C10_sample_at_zero:
  "signal ! 0 = 0 \<and> carrier 0 = 0 \<and> envelope 0 = exp (- 8) \<and> 0 < envelope 0"
proof -
  have "signal ! 0 = envelope 0 * carrier 0"
    by (rule signal_nth) simp
  moreover have "carrier 0 = 0"
    by (simp add: carrier_def)
  moreover have "envelope 0 = exp (- 8)"
    by (simp add: envelope_def)
  ultimately show ?thesis
    by simp
qed

section \<open>Properties of the output path\<close>

lemma upto_last_sep_name:
  "upto_last_sep (xs @ ''1d_signal.bson'') = upto_last_sep xs"
  by (simp add: upto_last_sep_def sep_def)

lemma upto_last_sep_snoc: "upto_last_sep (xs @ [sep]) = xs @ [sep]"
  by (simp add: upto_last_sep_def)

lemma upto_last_sep_end: "xs \<noteq> [] \<Longrightarrow> last xs = sep \<Longrightarrow> upto_last_sep xs = xs"
  by (cases xs rule: rev_cases) (simp_all add: upto_last_sep_def)

lemma rstrip_sep_snoc: "xs \<noteq> [] \<Longrightarrow> last xs \<noteq> sep \<Longrightarrow> rstrip_sep (xs @ [sep]) = xs"
  by (cases xs rule: rev_cases) (simp_all add: rstrip_sep_def)

lemma all_sep_replicate: "(\<forall>c\<in>set s. c = sep) \<Longrightarrow> s = replicate (length s) sep"
  by (induction s) simp_all

lemma rstrip_sep_shape:
  assumes "s \<noteq> replicate (length s) sep"
  shows "rstrip_sep s \<noteq> [] \<and> last (rstrip_sep s) \<noteq> sep"
proof -
  let ?d = "dropWhile (\<lambda>c. c = sep) (rev s)"
  have "\<not> (\<forall>c\<in>set (rev s). c = sep)"
    using assms all_sep_replicate [of s] by auto
  then have ne: "?d \<noteq> []"
    by (simp add: dropWhile_eq_Nil_conv)
  then have "hd ?d \<noteq> sep"
    using hd_dropWhile [of "\<lambda>c. c = sep" "rev s"] by simp
  with ne show ?thesis
    by (simp add: rstrip_sep_def last_rev)
qed

lemma dirname_shape:
  "dirname p = [] \<or> dirname p = replicate (length (dirname p)) sep
   \<or> (dirname p \<noteq> [] \<and> last (dirname p) \<noteq> sep)"
  using rstrip_sep_shape [of "upto_last_sep p"]
  by (auto simp add: dirname_def Let_def)

lemma output_path_dirname: "dirname (output_path script) = dirname script"
proof -
  let ?d = "dirname script"
  consider "?d = []" | "?d \<noteq> []" "last ?d = sep" | "?d \<noteq> []" "last ?d \<noteq> sep"
    by blast
  then show ?thesis
  proof cases
    case 1
    then show ?thesis
      by (simp add: output_path_def join_def dirname_def upto_last_sep_def sep_def)
  next
    case 2
    then have rep: "?d = replicate (length ?d) sep"
      using dirname_shape [of script] by auto
    have "output_path script = ?d @ ''1d_signal.bson''"
      using 2 by (simp add: output_path_def join_def sep_def)
    then have "upto_last_sep (output_path script) = ?d"
      using 2 by (simp add: upto_last_sep_name upto_last_sep_end)
    then show ?thesis
      using rep by (simp add: dirname_def [of "output_path script"])
  next
    case 3
    have "output_path script = (?d @ [sep]) @ ''1d_signal.bson''"
      using 3 by (simp add: output_path_def join_def sep_def)
    then have head: "upto_last_sep (output_path script) = ?d @ [sep]"
      by (simp only: upto_last_sep_name upto_last_sep_snoc)
    have "?d @ [sep] \<noteq> replicate (length (?d @ [sep])) sep"
    proof
      assume "?d @ [sep] = replicate (length (?d @ [sep])) sep"
      then have "set (?d @ [sep]) \<subseteq> {sep}"
        by (metis set_replicate_conv_if empty_subsetI subset_refl)
      moreover have "last ?d \<in> set ?d"
        using 3 by simp
      ultimately have "last ?d = sep"
        by auto
      then show False
        using 3 by simp
    qed
    then show ?thesis
      using 3 head by (simp add: dirname_def [of "output_path script"] rstrip_sep_snoc)
  qed
qed

lemma output_path_basename: "basename (output_path script) = ''1d_signal.bson''"
proof -
  have "\<exists>xs. output_path script = xs @ ''1d_signal.bson'' \<and> (xs = [] \<or> last xs = sep)"
    by (auto simp add: output_path_def join_def sep_def intro: exI [of _ "dirname script @ ''/''"]) 
  then obtain xs where p: "output_path script = xs @ ''1d_signal.bson''" and xs: "xs = [] \<or> last xs = sep"
    by blast
  show ?thesis
  proof (cases xs rule: rev_cases)
    case Nil
    then show ?thesis
      by (simp add: p basename_def sep_def)
  next
    case (snoc ys y)
    then show ?thesis
      using xs by (simp add: p basename_def sep_def)
  qed
qed

lemma output_path_example:
  "output_path ''/srv/rems/examples/1d_signal.py'' = ''/srv/rems/examples/1d_signal.bson''"
  by (simp add: output_path_def join_def dirname_def upto_last_sep_def rstrip_sep_def sep_def)

section \<open>Properties of the BSON format\<close>

lemma length_le_bytes: "length (le_bytes n w) = n"
  by (induction n arbitrary: w) simp_all

lemma le_word_le_bytes: "le_word (le_bytes n w) = take_bit (8 * n) w"
proof (induction n arbitrary: w)
  case 0
  then show ?case by simp
next
  case (Suc n)
  have "ucast (ucast w :: byte) OR push_bit 8 (take_bit (8 * n) (drop_bit 8 w)) = take_bit (8 * Suc n) w"
    by (rule bit_eqI) (auto simp add: bit_simps)
  then show ?case
    by (simp add: Suc)
qed

lemma le_word_le_bytes_32: "le_word (le_bytes 4 w) = (w :: 32 word)"
  by (simp add: le_word_le_bytes take_bit_word_eq_self)

lemma le_word_le_bytes_64: "le_word (le_bytes 8 w) = (w :: 64 word)"
  by (simp add: le_word_le_bytes take_bit_word_eq_self)

lemma unpack_int_le_bytes:
  assumes "- (2 ^ 31) \<le> i" and "i < 2 ^ 31"
  shows "unpack_int (le_bytes 4 (word_of_int i :: 32 word)) = i"
  using assms
  by (simp add: unpack_int_def le_word_le_bytes_32 sint_sbintrunc' signed_take_bit_int_eq_self)

lemma unpack_long_le_bytes:
  assumes "- (2 ^ 63) \<le> i" and "i < 2 ^ 63"
  shows "unpack_long (le_bytes 8 (word_of_int i :: 64 word)) = i"
  using assms
  by (simp add: unpack_long_def le_word_le_bytes_64 sint_sbintrunc' signed_take_bit_int_eq_self)

lemma char_of_byte_of_char: "char_of_byte (byte_of_char c) = c"
  by (simp add: char_of_byte_def byte_of_char_def unat_of_nat)

lemma byte_of_char_0: "byte_of_char c = 0 \<Longrightarrow> c = CHR 0x00"
proof -
  assume "byte_of_char c = 0"
  then have "char_of_byte (byte_of_char c) = char_of_byte 0"
    by simp
  then show ?thesis
    by (simp add: char_of_byte_of_char) (simp add: char_of_byte_def char_of_def)
qed

lemma takeWhile_nonzero:
  "\<forall>b \<in> set xs. b \<noteq> (0 :: byte) \<Longrightarrow> takeWhile (\<lambda>b. b \<noteq> 0) (xs @ 0 # rest) = xs"
  by (induction xs) simp_all

lemma dropWhile_nonzero:
  "\<forall>b \<in> set xs. b \<noteq> (0 :: byte) \<Longrightarrow> dropWhile (\<lambda>b. b \<noteq> 0) (xs @ 0 # rest) = 0 # rest"
  by (induction xs) simp_all

lemma get_c_string_make_c_string:
  assumes "CHR 0x00 \<notin> set key"
  shows "get_c_string (make_c_string key @ rest) = Some (key, rest)"
proof -
  have nz: "\<forall>b \<in> set (map byte_of_char key). b \<noteq> 0"
    using assms byte_of_char_0 by auto
  then have "takeWhile (\<lambda>b. b \<noteq> 0) (map byte_of_char key @ 0 # rest) = map byte_of_char key"
    by (rule takeWhile_nonzero)
  moreover have "dropWhile (\<lambda>b. b \<noteq> 0) (map byte_of_char key @ 0 # rest) = 0 # rest"
    using nz by (rule dropWhile_nonzero)
  moreover have "map char_of_byte (map byte_of_char key) = key"
    by (simp add: char_of_byte_of_char comp_def)
  ultimately show ?thesis
    by (simp add: get_c_string_def make_c_string_def)
qed

lemma decimal_no_nul: "CHR 0x00 \<notin> set (decimal n)"
proof (induction n rule: decimal.induct)
  case (1 n)
  have d: "char_of (48 + m) \<noteq> CHR 0x00" if "m < 10" for m :: nat
  proof
    assume "char_of (48 + m) = CHR 0x00"
    then have "of_char (char_of (48 + m)) = (of_char (CHR 0x00) :: nat)"
      by simp
    then show False
      using that by simp
  qed
  show ?case
  proof (cases "n < 10")
    case True
    then show ?thesis
      using d [of n] by (subst decimal.simps) simp
  next
    case False
    then show ?thesis
      using 1 d [of "n mod 10"] by (subst decimal.simps) simp
  qed
qed

lemma length_decimal: "length (decimal n) \<le> Suc n"
proof (induction n rule: decimal.induct)
  case (1 n)
  show ?case
  proof (cases "n < 10")
    case True
    then show ?thesis
      by (subst decimal.simps) simp
  next
    case False
    then have "length (decimal (n div 10)) \<le> Suc (n div 10)"
      using 1 by simp
    then show ?thesis
      using False by (subst decimal.simps) simp
  qed
qed



lemma name_value_to_bson_length:
  "name_value_to_bson g name v = Inr e \<Longrightarrow> Suc (length name) \<le> length e"
  by (cases v) (auto split: if_splits sum.splits)

lemma decode_elements_step:
  assumes "CHR 0x00 \<notin> set key"
    and "decode_value (\<lambda>body. decode_elements n f body) f tag (payload @ following) = Some (v, following)"
    and "decode_elements n f following = Some kvs"
  shows "decode_elements (Suc n) f (tag # make_c_string key @ payload @ following) = Some ((key, v) # kvs)"
  using assms by (simp add: get_c_string_make_c_string)

lemma decode_value_float:
  "decode_value d f 0x01 (le_bytes 8 w @ following) = Some (PyFloat (f w), following)"
  by (simp add: decode_value_def length_le_bytes le_word_le_bytes_64)

lemma decode_value_int32:
  assumes "- (2 ^ 31) \<le> i" and "i < 2 ^ 31"
  shows "decode_value d f 0x10 (le_bytes 4 (word_of_int i :: 32 word) @ following) = Some (PyInt i, following)"
  using assms by (simp add: decode_value_def length_le_bytes unpack_int_le_bytes)

lemma decode_value_int64:
  assumes "- (2 ^ 63) \<le> i" and "i < 2 ^ 63"
  shows "decode_value d f 0x12 (le_bytes 8 (word_of_int i :: 64 word) @ following) = Some (PyInt i, following)"
  using assms by (simp add: decode_value_def length_le_bytes unpack_long_le_bytes)

lemma decode_value_array:
  assumes "pack_int (int (length data) + 5) = Inr sz"
    and "d data = Some items"
  shows "decode_value d f 0x04 (sz @ data @ 0x00 # following) = Some (PyList (map snd items), following)"
proof -
  have range: "int (length data) + 5 < 2 ^ 31"
    and sz: "sz = le_bytes 4 (word_of_int (int (length data) + 5) :: 32 word)"
    using assms(1) by (auto simp add: pack_int_def split: if_splits)
  have len: "length sz = 4"
    by (simp add: sz length_le_bytes)
  have un: "unpack_int sz = int (length data) + 5"
    unfolding sz using range by (intro unpack_int_le_bytes) simp_all
  have nth: "(sz @ data @ 0x00 # following) ! (4 + length data) = 0x00"
    using len by (simp add: nth_append)
  have "nat (int (length data) + 5) = length data + 5"
    by simp
  then show ?thesis
    using len un nth assms(2) by (simp add: decode_value_def Let_def)
qed


lemma roundtrip_values:
  fixes f :: "64 word \<Rightarrow> real"
  shows "name = make_c_string key \<Longrightarrow> CHR 0x00 \<notin> set key \<Longrightarrow>
         name_value_to_bson g name v = Inr e \<Longrightarrow> length (e @ following) \<le> Suc n \<Longrightarrow>
         decode_elements n f following = Some kvs \<Longrightarrow>
         decode_elements (Suc n) f (e @ following) = Some ((key, reread (\<lambda>x. f (g x)) v) # kvs)"
    and "encode_list_items g k vs = Inr data \<Longrightarrow> length data \<le> m \<Longrightarrow>
         \<exists>items. decode_elements m f data = Some items
                 \<and> map snd items = map (reread (\<lambda>x. f (g x))) vs"
proof (induction g name v and g k vs arbitrary: key e following n kvs and data m
    rule: name_value_to_bson_encode_list_items.induct)
  case (1 g name x)
  then have e: "e = 0x01 # make_c_string key @ le_bytes 8 (g x)"
    by simp
  have "decode_elements (Suc n) f (0x01 # make_c_string key @ le_bytes 8 (g x) @ following)
      = Some ((key, PyFloat (f (g x))) # kvs)"
    using "1.prems"(2) decode_value_float "1.prems"(5) by (rule decode_elements_step)
  then show ?case
    by (simp add: e del: decode_elements.simps)
next
  case (2 g name i)
  show ?case
  proof (cases "- (2 ^ 31) \<le> i \<and> i \<le> 2 ^ 31 - 1")
    case True
    then have e: "e = 0x10 # make_c_string key @ le_bytes 4 (word_of_int i :: 32 word)"
      using 2 by simp
    have "decode_elements (Suc n) f
        (0x10 # make_c_string key @ le_bytes 4 (word_of_int i :: 32 word) @ following)
        = Some ((key, PyInt i) # kvs)"
      using "2.prems"(2) _ "2.prems"(5)
      by (rule decode_elements_step) (use True in \<open>simp add: decode_value_int32\<close>)
    then show ?thesis
      by (simp add: e del: decode_elements.simps)
  next
    case False
    then have r: "- (2 ^ 63) \<le> i \<and> i < 2 ^ 63"
      and e: "e = 0x12 # make_c_string key @ le_bytes 8 (word_of_int i :: 64 word)"
      using 2 by (auto split: if_splits)
    have "decode_elements (Suc n) f
        (0x12 # make_c_string key @ le_bytes 8 (word_of_int i :: 64 word) @ following)
        = Some ((key, PyInt i) # kvs)"
      using "2.prems"(2) _ "2.prems"(5)
      by (rule decode_elements_step) (use r in \<open>simp add: decode_value_int64\<close>)
    then show ?thesis
      by (simp add: e del: decode_elements.simps)
  qed
next
  case (3 g name vs)
  from "3.prems"(3) obtain data sz where data: "encode_list_items g 0 vs = Inr data"
    and sz: "pack_int (int (length data) + 5) = Inr sz"
    and e: "e = 0x04 # make_c_string key @ sz @ data @ [0x00]"
    using "3.prems"(1) by (auto split: sum.splits)
  have "length data \<le> n"
    using "3.prems"(4) by (simp add: e)
  with data obtain items where items: "decode_elements n f data = Some items"
    and snd_items: "map snd items = map (reread (\<lambda>x. f (g x))) vs"
    using "3.IH" by blast
  have "decode_value (\<lambda>body. decode_elements n f body) f 0x04 ((sz @ data @ [0x00]) @ following)
      = Some (PyList (map snd items), following)"
    using decode_value_array [OF sz, of "\<lambda>body. decode_elements n f body" items f following] items
    by simp
  with "3.prems"(2) have "decode_elements (Suc n) f
      (0x04 # make_c_string key @ (sz @ data @ [0x00]) @ following)
      = Some ((key, PyList (map snd items)) # kvs)"
    using "3.prems"(5) by (rule decode_elements_step)
  then show ?case
    using snd_items by (simp add: e del: decode_elements.simps)
next
  case (4 g k)
  then show ?case
    by simp
next
  case (5 g k v vs)
  from "5.prems"(1) obtain b bs where b: "name_value_to_bson g (make_c_string (decimal k)) v = Inr b"
    and bs: "encode_list_items g (Suc k) vs = Inr bs"
    and data: "data = b @ bs"
    by (auto split: sum.splits)
  have "Suc (length bs) \<le> m"
    using name_value_to_bson_length [OF b] "5.prems"(2) by (simp add: data)
  then obtain m' where m: "m = Suc m'" and len: "length bs \<le> m'"
    by (cases m) simp_all
  obtain items where items: "decode_elements m' f bs = Some items"
    and snd_items: "map snd items = map (reread (\<lambda>x. f (g x))) vs"
    using "5.IH"(2) [OF b bs len] by blast
  have "decode_elements (Suc m') f (b @ bs)
      = Some ((decimal k, reread (\<lambda>x. f (g x)) v) # items)"
    using "5.prems"(2) by (intro "5.IH"(1) [OF refl decimal_no_nul b _ items]) (simp add: data m)
  then show ?case
    using snd_items by (simp add: data m del: decode_elements.simps)
qed

lemma roundtrip_elements:
  fixes f :: "64 word \<Rightarrow> real"
  assumes "encode_elements g kvs = Inr bs" and "length bs \<le> n"
  shows "decode_elements n f bs = Some (map (\<lambda>(key, v). (key, reread (\<lambda>x. f (g x)) v)) kvs)"
  using assms
proof (induction kvs arbitrary: bs n)
  case Nil
  then show ?case
    by simp
next
  case (Cons kv kvs)
  obtain key v where kv: "kv = (key, v)"
    by (cases kv)
  from Cons.prems(1) obtain b bs' where nul: "CHR 0x00 \<notin> set key"
    and b: "name_value_to_bson g (make_c_string key) v = Inr b"
    and bs': "encode_elements g kvs = Inr bs'"
    and bs: "bs = b @ bs'"
    by (auto simp add: kv element_to_bson_def make_name_def split: sum.splits if_splits)
  have "Suc (length bs') \<le> n"
    using name_value_to_bson_length [OF b] Cons.prems(2) by (simp add: bs)
  then obtain n' where n: "n = Suc n'" and len: "length bs' \<le> n'"
    by (cases n) simp_all
  have rest: "decode_elements n' f bs' = Some (map (\<lambda>(key, v). (key, reread (\<lambda>x. f (g x)) v)) kvs)"
    using bs' len by (rule Cons.IH)
  have "decode_elements (Suc n') f (b @ bs')
      = Some ((key, reread (\<lambda>x. f (g x)) v) # map (\<lambda>(key, v). (key, reread (\<lambda>x. f (g x)) v)) kvs)"
    using Cons.prems(2) by (intro roundtrip_values(1) [OF refl nul b _ rest]) (simp add: bs n)
  then show ?case
    by (simp add: kv bs n del: decode_elements.simps)
qed

lemma BSON_roundtrip:
  fixes f :: "64 word \<Rightarrow> real"
  assumes "BSON_encode g doc = Inr bytes"
  shows "BSON_decode f bytes = Some (map (\<lambda>(key, v). (key, reread (\<lambda>x. f (g x)) v)) (id_first doc))"
proof -
  from assms obtain encoded sz where enc: "encode_elements g (id_first doc) = Inr encoded"
    and sz: "pack_int (int (length encoded) + 5) = Inr sz"
    and bytes: "bytes = sz @ encoded @ [0x00]"
    by (auto simp add: BSON_encode_def split: sum.splits)
  have range: "int (length encoded) + 5 < 2 ^ 31"
    and sz_eq: "sz = le_bytes 4 (word_of_int (int (length encoded) + 5) :: 32 word)"
    using sz by (auto simp add: pack_int_def split: if_splits)
  have len: "length sz = 4"
    by (simp add: sz_eq length_le_bytes)
  have un: "unpack_int sz = int (length encoded) + 5"
    unfolding sz_eq using range by (intro unpack_int_le_bytes) simp_all
  have "decode_elements (length bytes) f encoded
      = Some (map (\<lambda>(key, v). (key, reread (\<lambda>x. f (g x)) v)) (id_first doc))"
    using enc by (rule roundtrip_elements) (simp add: bytes)
  then show ?thesis
    using len un by (simp add: BSON_decode_def bytes)
qed

lemma encode_floats:
  "\<exists>data. encode_list_items g k (map PyFloat xs) = Inr data
     \<and> length data \<le> length xs * (k + length xs + 11)"
proof (induction xs arbitrary: k)
  case Nil
  then show ?case
    by simp
next
  case (Cons x xs)
  obtain data where data: "encode_list_items g (Suc k) (map PyFloat xs) = Inr data"
    and len: "length data \<le> length xs * (Suc k + length xs + 11)"
    using Cons.IH [of "Suc k"] by blast
  have "length (decimal k) \<le> Suc k"
    by (rule length_decimal)
  then have "10 + length (decimal k) + length data \<le> Suc (length xs) * (k + Suc (length xs) + 11)"
    using len by simp
  then show ?case
    by (simp add: data make_c_string_def length_le_bytes)
qed

lemma BSON_encode_document: "\<exists>bytes. BSON_encode g document = Inr bytes"
proof -
  obtain data where data: "encode_list_items g 0 (map PyFloat signal) = Inr data"
    and "length data \<le> length signal * (0 + length signal + 11)"
    using encode_floats [of g 0 signal] by blast
  then have len: "length data \<le> 4092 * 4103"
    by (simp add: signal_def)
  then have "\<exists>sz. pack_int (int (length data) + 5) = Inr sz \<and> length sz = 4"
    by (simp add: pack_int_def length_le_bytes)
  then obtain sz where sz: "pack_int (int (length data) + 5) = Inr sz" and lsz: "length sz = 4"
    by blast
  have id: "id_first document = document"
    by (simp add: id_first_def document_def)
  have "\<exists>encoded. encode_elements g document = Inr encoded \<and> length encoded = length data + 23"
    by (simp add: document_def element_to_bson_def make_name_def make_c_string_def data sz lsz
        length_le_bytes)
  then obtain encoded where enc: "encode_elements g document = Inr encoded"
    and "length encoded = length data + 23"
    by blast
  then have "int (length encoded) + 5 < 2 ^ 31"
    using len by simp
  then show ?thesis
    by (simp add: BSON_encode_def id enc pack_int_def)
qed

lemma fixed_point_tolerance:
  assumes "\<bar>x\<bar> \<le> 1"
  shows "\<bar>real_of_int (sint (word_of_int \<lfloor>x * 2 ^ 32\<rfloor> :: 64 word)) / 2 ^ 32 - x\<bar> \<le> 1 / 2 ^ 32"
proof -
  let ?k = "\<lfloor>x * 2 ^ 32\<rfloor>"
  have "- (2 ^ 32) \<le> x * 2 ^ 32" and "x * 2 ^ 32 \<le> 2 ^ 32"
    using assms by (simp_all add: abs_le_iff)
  then have "- (2 ^ 32) \<le> ?k" and "?k \<le> 2 ^ 32"
    by (simp_all add: le_floor_iff floor_le_iff)
  then have "sint (word_of_int ?k :: 64 word) = ?k"
    by (simp add: sint_sbintrunc' signed_take_bit_int_eq_self)
  moreover have "real_of_int ?k \<le> x * 2 ^ 32" and "x * 2 ^ 32 < real_of_int ?k + 1"
    by linarith+
  ultimately show ?thesis
    by (simp add: field_simps abs_le_iff)
qed

text \<open>
  The format on small documents: \<open>{"a": 1}\<close>, a list with an int32 and an int64, and
  the two errors of the encoder.
\<close>

lemma BSON_encode_example:
  "BSON_encode (\<lambda>x. 0) [(''a'', PyInt 1)]
     = Inr [0x0C, 0x00, 0x00, 0x00, 0x10, 0x61, 0x00, 0x01, 0x00, 0x00, 0x00, 0x00]"
  by code_simp

lemma BSON_encode_example_list:
  "BSON_encode (\<lambda>x. 0) [(''v'', PyList [PyInt (- 1), PyInt 4294967296])]
     = Inr [0x1F, 0x00, 0x00, 0x00,
            0x04, 0x76, 0x00,
            0x17, 0x00, 0x00, 0x00,
            0x10, 0x30, 0x00, 0xFF, 0xFF, 0xFF, 0xFF,
            0x12, 0x31, 0x00, 0x00, 0x00, 0x00, 0x00, 0x01, 0x00, 0x00, 0x00,
            0x00,
            0x00]"
  by code_simp


lemma BSON_decode_example:
  "BSON_decode (\<lambda>w. 0)
     [0x1F, 0x00, 0x00, 0x00,
      0x04, 0x76, 0x00,
      0x17, 0x00, 0x00, 0x00,
      0x10, 0x30, 0x00, 0xFF, 0xFF, 0xFF, 0xFF,
      0x12, 0x31, 0x00, 0x00, 0x00, 0x00, 0x00, 0x01, 0x00, 0x00, 0x00,
      0x00,
      0x00]
     = Some [(''v'', PyList [PyInt (- 1), PyInt 4294967296])]"
  by code_simp

lemma BSON_encode_example_errors:
  "BSON_encode (\<lambda>x. 0) [(''a'', PyInt (2 ^ 63))] = Inl OverflowError
   \<and> BSON_encode (\<lambda>x. 0) [([CHR ''a'', CHR 0x00], PyInt 1)] = Inl InvalidDocument"
  by code_simp

section \<open>Properties of the run\<close>

lemma main_fst:
  "fst (main encode ev script w) =
     (case open_error ev (output_path script) of
        Some e \<Rightarrow> Inl e
      | None \<Rightarrow>
          (case write_error ev (output_path script) (encode document) of
             Some (e, n) \<Rightarrow> Inl e
           | None \<Rightarrow> Inr ()))"
  by (simp add: main_def open_bw_def file_write_def Let_def split: option.splits)

lemma main_files:
  "files (snd (main encode ev script w)) =
     (case open_error ev (output_path script) of
        Some e \<Rightarrow> files w
      | None \<Rightarrow>
          (files w)(output_path script \<mapsto>
            (case write_error ev (output_path script) (encode document) of
               Some (e, n) \<Rightarrow> take n (encode document)
             | None \<Rightarrow> encode document)))"
  by (simp add: main_def open_bw_def file_write_def file_close_def logged_def Let_def
      split: option.splits)

lemma main_handles: "handles (snd (main encode ev script w)) = handles w"
  by (simp add: main_def open_bw_def file_write_def file_close_def logged_def Let_def
      split: option.splits)

lemma main_oplog:
  "oplog (snd (main encode ev script w)) =
     oplog w @
     (case open_error ev (output_path script) of
        Some e \<Rightarrow> [OpOpen (output_path script)]
      | None \<Rightarrow> [OpOpen (output_path script), OpWrite (output_path script),
                  OpClose (output_path script)])"
  by (simp add: main_def open_bw_def file_write_def file_close_def logged_def Let_def
      split: option.splits)

lemma main_ok_files:
  assumes "fst (main encode ev script w) = Inr ()"
  shows "files (snd (main encode ev script w)) = (files w)(output_path script \<mapsto> encode document)"
  using assms by (auto simp add: main_fst main_files split: option.splits)

text \<open>
  C3: the document handed to the encoder has exactly two top-level fields, \<open>ex\<close> and
  \<open>_version\<close>: \<open>_version\<close> holds the integer 0 and \<open>ex\<close> the list of the 4092 samples
  as floats. A run that succeeds leaves the encoding of this document in the output file.
\<close>

theorem C3_document_fields:
  "map fst document = [''ex'', ''_version'']
   \<and> dom (map_of document) = {''ex'', ''_version''}
   \<and> map_of document ''_version'' = Some (PyInt 0)
   \<and> map_of document ''ex'' = Some (PyList (map PyFloat signal))
   \<and> length (map PyFloat signal) = 4092
   \<and> (fst (main encode ev script w) = Inr () \<longrightarrow>
        files (snd (main encode ev script w)) (output_path script) = Some (encode document))"
proof -
  have "length (map PyFloat signal) = 4092"
    by (simp add: signal_def)
  moreover have "dom (map_of document) = {''ex'', ''_version''}"
    by (auto simp add: document_def split: if_splits)
  ultimately show ?thesis
    by (simp add: document_def main_ok_files)
qed

theorem C3_document_fields_witness:
  "fst (main (\<lambda>d. [d]) \<lparr>open_error = (\<lambda>p. None), write_error = (\<lambda>p data. None)\<rparr>
          ''/srv/rems/examples/1d_signal.py'' \<lparr>files = Map.empty, handles = [], oplog = []\<rparr>) = Inr ()
   \<and> files (snd (main (\<lambda>d. [d]) \<lparr>open_error = (\<lambda>p. None), write_error = (\<lambda>p data. None)\<rparr>
          ''/srv/rems/examples/1d_signal.py'' \<lparr>files = Map.empty, handles = [], oplog = []\<rparr>))
        ''/srv/rems/examples/1d_signal.bson'' = Some [document]"
  using C3_document_fields [where encode = "\<lambda>d. [d]"
      and ev = "\<lparr>open_error = (\<lambda>p. None), write_error = (\<lambda>p data. None)\<rparr>"
      and script = "''/srv/rems/examples/1d_signal.py''"
      and w = "\<lparr>files = Map.empty, handles = [], oplog = []\<rparr>"]
  by (simp add: main_fst output_path_example)

text \<open>
  C4: round trip. After a run that succeeds with the BSON encoder, the BSON decoder reads
  from the bytes of the output file a mapping with the keys \<open>ex\<close> and \<open>_version\<close>, whose
  \<open>_version\<close> entry is 0 and whose \<open>ex\<close> entry has one float for each sample of the
  generated signal, equal to it within the tolerance \<open>eps\<close> of the conversion between a
  float and its 8 bytes on the interval from -1 to 1.
\<close>

theorem C4_round_trip:
  assumes "\<forall>x. \<bar>x\<bar> \<le> 1 \<longrightarrow> \<bar>unpack_float (pack_float x) - x\<bar> \<le> eps"
    and "BSON_encode pack_float document = Inr (encode document)"
    and "fst (main encode ev script w) = Inr ()"
  shows "\<exists>bytes d ex.
           files (snd (main encode ev script w)) (output_path script) = Some bytes
           \<and> BSON_decode unpack_float bytes = Some d
           \<and> map fst d = [''ex'', ''_version'']
           \<and> map_of d ''_version'' = Some (PyInt 0)
           \<and> map_of d ''ex'' = Some (PyList ex)
           \<and> length ex = length signal
           \<and> (\<forall>t < length signal. \<exists>y. ex ! t = PyFloat y \<and> \<bar>y - signal ! t\<bar> \<le> eps)"
proof -
  let ?r = "\<lambda>x. unpack_float (pack_float x)"
  let ?d = "[(''ex'', PyList (map (\<lambda>x. PyFloat (?r x)) signal)), (''_version'', PyInt 0)]"
  have written: "files (snd (main encode ev script w)) (output_path script) = Some (encode document)"
    using assms(3) by (simp add: main_ok_files)
  have "id_first document = document"
    by (simp add: id_first_def document_def)
  then have "BSON_decode unpack_float (encode document)
      = Some (map (\<lambda>(key, v). (key, reread ?r v)) document)"
    using BSON_roundtrip [OF assms(2), of unpack_float] by simp
  then have decoded: "BSON_decode unpack_float (encode document) = Some ?d"
    by (simp add: document_def comp_def)
  have close: "\<forall>t < length signal. \<exists>y. map (\<lambda>x. PyFloat (?r x)) signal ! t = PyFloat y
      \<and> \<bar>y - signal ! t\<bar> \<le> eps"
  proof (intro allI impI)
    fix t
    assume t: "t < length signal"
    then have "\<bar>signal ! t\<bar> \<le> 1"
      by (intro signal_abs_le_1 nth_mem)
    then have "\<bar>?r (signal ! t) - signal ! t\<bar> \<le> eps"
      using assms(1) by blast
    then show "\<exists>y. map (\<lambda>x. PyFloat (?r x)) signal ! t = PyFloat y \<and> \<bar>y - signal ! t\<bar> \<le> eps"
      using t by simp
  qed
  have fields: "map fst ?d = [''ex'', ''_version'']"
    "map_of ?d ''_version'' = Some (PyInt 0)"
    "map_of ?d ''ex'' = Some (PyList (map (\<lambda>x. PyFloat (?r x)) signal))"
    "length (map (\<lambda>x. PyFloat (?r x)) signal) = length signal"
    by simp_all
  show ?thesis
    by (intro exI [of _ "encode document"] exI [of _ ?d]
        exI [of _ "map (\<lambda>x. PyFloat (?r x)) signal"] conjI written decoded fields close)
qed

theorem C4_round_trip_witness:
  "(\<forall>x. \<bar>real_of_int (sint (word_of_int \<lfloor>max (- 1) (min 1 x) * 2 ^ 32\<rfloor> :: 64 word)) / 2 ^ 32
          - max (- 1) (min 1 x)\<bar> \<le> 1 / 2 ^ 32)
   \<and> BSON_encode (\<lambda>x. word_of_int \<lfloor>x * 2 ^ 32\<rfloor>) document
       = Inr (case BSON_encode (\<lambda>x. word_of_int \<lfloor>x * 2 ^ 32\<rfloor>) document of
                Inl e \<Rightarrow> [] | Inr b \<Rightarrow> b)
   \<and> fst (main (\<lambda>d. case BSON_encode (\<lambda>x. word_of_int \<lfloor>x * 2 ^ 32\<rfloor>) d of
                       Inl e \<Rightarrow> [] | Inr b \<Rightarrow> b)
          \<lparr>open_error = (\<lambda>p. None), write_error = (\<lambda>p data. None)\<rparr>
          ''/srv/rems/examples/1d_signal.py''
          \<lparr>files = Map.empty, handles = [], oplog = []\<rparr>) = Inr ()
   \<and> (\<exists>bytes d ex.
         files (snd (main (\<lambda>d. case BSON_encode (\<lambda>x. word_of_int \<lfloor>x * 2 ^ 32\<rfloor>) d of
                              Inl e \<Rightarrow> [] | Inr b \<Rightarrow> b)
           \<lparr>open_error = (\<lambda>p. None), write_error = (\<lambda>p data. None)\<rparr>
           ''/srv/rems/examples/1d_signal.py''
           \<lparr>files = Map.empty, handles = [], oplog = []\<rparr>))
           (output_path ''/srv/rems/examples/1d_signal.py'') = Some bytes
         \<and> BSON_decode (\<lambda>w. real_of_int (sint w) / 2 ^ 32) bytes = Some d
         \<and> map fst d = [''ex'', ''_version'']
         \<and> map_of d ''_version'' = Some (PyInt 0)
         \<and> map_of d ''ex'' = Some (PyList ex)
         \<and> length ex = length signal
         \<and> (\<forall>t < length signal. \<exists>y. ex ! t = PyFloat y \<and> \<bar>y - signal ! t\<bar> \<le> 1 / 2 ^ 32))"
proof -
  let ?pack = "\<lambda>x :: real. word_of_int \<lfloor>x * 2 ^ 32\<rfloor> :: 64 word"
  let ?unpack = "\<lambda>w :: 64 word. real_of_int (sint w) / 2 ^ 32"
  let ?encode = "\<lambda>d. case BSON_encode ?pack d of Inl e \<Rightarrow> [] | Inr b \<Rightarrow> b"
  have tol: "\<forall>x. \<bar>x\<bar> \<le> 1 \<longrightarrow> \<bar>?unpack (?pack x) - x\<bar> \<le> 1 / 2 ^ 32"
    by (intro allI impI fixed_point_tolerance)
  have enc: "BSON_encode ?pack document = Inr (?encode document)"
    using BSON_encode_document [of ?pack] by auto
  have ok: "fst (main ?encode \<lparr>open_error = (\<lambda>p. None), write_error = (\<lambda>p data. None)\<rparr>
          ''/srv/rems/examples/1d_signal.py''
          \<lparr>files = Map.empty, handles = [], oplog = []\<rparr>) = Inr ()"
    by (simp add: main_fst)
  have clamped: "\<forall>x. \<bar>?unpack (?pack (max (- 1) (min 1 x))) - max (- 1) (min 1 x)\<bar> \<le> 1 / 2 ^ 32"
    by (intro allI fixed_point_tolerance) (simp add: abs_le_iff)
  show ?thesis
    using clamped enc ok C4_round_trip [OF tol enc ok] by (intro conjI)
qed

text \<open>
  C5: determinism. The run takes no input: whatever the files held before, a run that
  succeeds leaves the same bytes in the output file, the encoding of the one document; two
  runs give the same output file, and a second run right after the first changes no file.
\<close>

theorem C5_deterministic:
  assumes "fst (main encode ev1 script w1) = Inr ()"
    and "fst (main encode ev2 script w2) = Inr ()"
  shows "files (snd (main encode ev1 script w1)) (output_path script) = Some (encode document)
       \<and> files (snd (main encode ev2 script w2)) (output_path script) =
           files (snd (main encode ev1 script w1)) (output_path script)
       \<and> (w2 = snd (main encode ev1 script w1) \<longrightarrow>
            files (snd (main encode ev2 script w2)) = files w2)"
proof -
  have f1: "files (snd (main encode ev1 script w1)) = (files w1)(output_path script \<mapsto> encode document)"
    using assms(1) by (rule main_ok_files)
  have f2: "files (snd (main encode ev2 script w2)) = (files w2)(output_path script \<mapsto> encode document)"
    using assms(2) by (rule main_ok_files)
  have again: "w2 = snd (main encode ev1 script w1) \<longrightarrow>
      files (snd (main encode ev2 script w2)) = files w2"
  proof
    assume "w2 = snd (main encode ev1 script w1)"
    then have "files w2 = (files w1)(output_path script \<mapsto> encode document)"
      by (simp only: f1)
    then have "(files w2)(output_path script \<mapsto> encode document) = files w2"
      by simp
    then show "files (snd (main encode ev2 script w2)) = files w2"
      by (simp only: f2)
  qed
  have "files (snd (main encode ev1 script w1)) (output_path script) = Some (encode document)"
    by (simp add: f1)
  moreover have "files (snd (main encode ev2 script w2)) (output_path script) =
      files (snd (main encode ev1 script w1)) (output_path script)"
    by (simp add: f1 f2)
  ultimately show ?thesis
    using again by blast
qed

theorem C5_deterministic_witness:
  "fst (main (\<lambda>d. [d]) \<lparr>open_error = (\<lambda>p. None), write_error = (\<lambda>p data. None)\<rparr>
          ''/srv/rems/examples/1d_signal.py'' \<lparr>files = Map.empty, handles = [], oplog = []\<rparr>) = Inr ()
   \<and> fst (main (\<lambda>d. [d]) \<lparr>open_error = (\<lambda>p. None), write_error = (\<lambda>p data. None)\<rparr>
          ''/srv/rems/examples/1d_signal.py''
          \<lparr>files = [''/srv/rems/examples/1d_signal.bson'' \<mapsto> []], handles = [], oplog = []\<rparr>) = Inr ()
   \<and> files (snd (main (\<lambda>d. [d]) \<lparr>open_error = (\<lambda>p. None), write_error = (\<lambda>p data. None)\<rparr>
          ''/srv/rems/examples/1d_signal.py''
          \<lparr>files = [''/srv/rems/examples/1d_signal.bson'' \<mapsto> []], handles = [], oplog = []\<rparr>))
        ''/srv/rems/examples/1d_signal.bson''
     = files (snd (main (\<lambda>d. [d]) \<lparr>open_error = (\<lambda>p. None), write_error = (\<lambda>p data. None)\<rparr>
          ''/srv/rems/examples/1d_signal.py'' \<lparr>files = Map.empty, handles = [], oplog = []\<rparr>))
        ''/srv/rems/examples/1d_signal.bson''"
proof -
  have ok: "fst (main (\<lambda>d. [d]) \<lparr>open_error = (\<lambda>p. None), write_error = (\<lambda>p data. None)\<rparr>
          ''/srv/rems/examples/1d_signal.py'' w) = Inr ()" for w :: "py_dict world"
    by (simp add: main_fst)
  show ?thesis
    using C5_deterministic [OF ok ok, of "\<lparr>files = Map.empty, handles = [], oplog = []\<rparr>"
        "\<lparr>files = [''/srv/rems/examples/1d_signal.bson'' \<mapsto> []], handles = [], oplog = []\<rparr>"]
    by (simp add: ok output_path_example)
qed

text \<open>
  C7: the only effect of a run is on one file, named \<open>1d_signal.bson\<close>, in the directory
  of the script: every other file is as before, no file object stays open, every file
  operation made is on that path, and after a run that succeeds the file holds exactly the
  encoded document, whatever it held before (binary mode, overwritten).
\<close>

theorem C7_sole_effect:
  assumes "main encode ev script w = (r, w')"
  shows "basename (output_path script) = ''1d_signal.bson''
       \<and> dirname (output_path script) = dirname script
       \<and> (\<forall>q. q \<noteq> output_path script \<longrightarrow> files w' q = files w q)
       \<and> handles w' = handles w
       \<and> (\<exists>ops. oplog w' = oplog w @ ops
            \<and> set ops \<subseteq> {OpOpen (output_path script), OpWrite (output_path script),
                           OpClose (output_path script)})
       \<and> (r = Inr () \<longrightarrow> files w' (output_path script) = Some (encode document))"
proof -
  have r: "r = fst (main encode ev script w)" and w': "w' = snd (main encode ev script w)"
    using assms by simp_all
  have "\<forall>q. q \<noteq> output_path script \<longrightarrow> files w' q = files w q"
    by (simp add: w' main_files split: option.splits)
  moreover have "handles w' = handles w"
    by (simp add: w' main_handles)
  moreover have "\<exists>ops. oplog w' = oplog w @ ops
      \<and> set ops \<subseteq> {OpOpen (output_path script), OpWrite (output_path script),
                     OpClose (output_path script)}"
    by (simp add: w' main_oplog split: option.splits)
  moreover have "r = Inr () \<longrightarrow> files w' (output_path script) = Some (encode document)"
    by (simp add: r w' main_ok_files)
  ultimately show ?thesis
    by (simp only: output_path_basename output_path_dirname simp_thms)
qed

theorem C7_sole_effect_witness:
  "main (\<lambda>d. [d]) \<lparr>open_error = (\<lambda>p. None), write_error = (\<lambda>p data. None)\<rparr>
       ''/srv/rems/examples/1d_signal.py''
       \<lparr>files = [''/srv/rems/examples/1d_signal.py'' \<mapsto> []], handles = [], oplog = []\<rparr>
   = (Inr (), \<lparr>files = [''/srv/rems/examples/1d_signal.py'' \<mapsto> [],
                        ''/srv/rems/examples/1d_signal.bson'' \<mapsto> [document]],
               handles = [],
               oplog = [OpOpen ''/srv/rems/examples/1d_signal.bson'',
                        OpWrite ''/srv/rems/examples/1d_signal.bson'',
                        OpClose ''/srv/rems/examples/1d_signal.bson'']\<rparr>)
   \<and> ''/srv/rems/examples/1d_signal.py'' \<noteq> output_path ''/srv/rems/examples/1d_signal.py''
   \<and> basename (output_path ''/srv/rems/examples/1d_signal.py'') = ''1d_signal.bson''
   \<and> dirname (output_path ''/srv/rems/examples/1d_signal.py'') = ''/srv/rems/examples''"
proof -
  have run: "main (\<lambda>d. [d]) \<lparr>open_error = (\<lambda>p. None), write_error = (\<lambda>p data. None)\<rparr>
       ''/srv/rems/examples/1d_signal.py''
       \<lparr>files = [''/srv/rems/examples/1d_signal.py'' \<mapsto> []], handles = [], oplog = []\<rparr>
   = (Inr (), \<lparr>files = [''/srv/rems/examples/1d_signal.py'' \<mapsto> [],
                        ''/srv/rems/examples/1d_signal.bson'' \<mapsto> [document]],
               handles = [],
               oplog = [OpOpen ''/srv/rems/examples/1d_signal.bson'',
                        OpWrite ''/srv/rems/examples/1d_signal.bson'',
                        OpClose ''/srv/rems/examples/1d_signal.bson'']\<rparr>)"
    by (simp add: main_def open_bw_def file_write_def file_close_def logged_def Let_def
        output_path_example)
  have "dirname ''/srv/rems/examples/1d_signal.py'' = ''/srv/rems/examples''"
    by (simp add: dirname_def upto_last_sep_def rstrip_sep_def sep_def)
  then show ?thesis
    using run C7_sole_effect [OF run] by (simp add: output_path_example)
qed

text \<open>
  C8: the run fails exactly when the output path cannot be written (opening it or writing
  to it fails), and then its result is the error of that operation, unhandled. Nothing is
  retried and nothing is cleaned up: after a failed open that one operation was made and
  the files are as before; otherwise the operations are exactly open, write, close, and a
  failed write leaves in the file the part that was written. The file object is released on
  every path: the open file objects after the run are those before it.
\<close>

theorem C8_failure_modes:
  assumes "main encode ev script w = (r, w')"
  shows "((\<exists>e. r = Inl e) \<longleftrightarrow> \<not> writable ev (output_path script) (encode document))
       \<and> (\<forall>e. r = Inl e \<longleftrightarrow>
            open_error ev (output_path script) = Some e
            \<or> (open_error ev (output_path script) = None
               \<and> (\<exists>n. write_error ev (output_path script) (encode document) = Some (e, n))))
       \<and> handles w' = handles w
       \<and> (open_error ev (output_path script) \<noteq> None \<longrightarrow>
            oplog w' = oplog w @ [OpOpen (output_path script)] \<and> files w' = files w)
       \<and> (open_error ev (output_path script) = None \<longrightarrow>
            oplog w' = oplog w @ [OpOpen (output_path script), OpWrite (output_path script),
                                  OpClose (output_path script)])
       \<and> (\<forall>e n. open_error ev (output_path script) = None
              \<and> write_error ev (output_path script) (encode document) = Some (e, n) \<longrightarrow>
            files w' (output_path script) = Some (take n (encode document)))"
proof -
  have r: "r = fst (main encode ev script w)" and w': "w' = snd (main encode ev script w)"
    using assms by simp_all
  have "(\<exists>e. r = Inl e) \<longleftrightarrow> \<not> writable ev (output_path script) (encode document)"
    by (auto simp add: r main_fst writable_def split: option.splits)
  moreover have "\<forall>e. r = Inl e \<longleftrightarrow>
            open_error ev (output_path script) = Some e
            \<or> (open_error ev (output_path script) = None
               \<and> (\<exists>n. write_error ev (output_path script) (encode document) = Some (e, n)))"
    by (auto simp add: r main_fst split: option.splits)
  moreover have "handles w' = handles w"
    by (simp add: w' main_handles)
  moreover have "open_error ev (output_path script) \<noteq> None \<longrightarrow>
            oplog w' = oplog w @ [OpOpen (output_path script)] \<and> files w' = files w"
    by (auto simp add: w' main_oplog main_files)
  moreover have "open_error ev (output_path script) = None \<longrightarrow>
            oplog w' = oplog w @ [OpOpen (output_path script), OpWrite (output_path script),
                                  OpClose (output_path script)]"
    by (simp add: w' main_oplog)
  moreover have "\<forall>e n. open_error ev (output_path script) = None
              \<and> write_error ev (output_path script) (encode document) = Some (e, n) \<longrightarrow>
            files w' (output_path script) = Some (take n (encode document))"
    by (simp add: w' main_files)
  ultimately show ?thesis
    by blast
qed

theorem C8_failure_modes_witness:
  "main (\<lambda>d. [d, d]) \<lparr>open_error = (\<lambda>p. None), write_error = (\<lambda>p data. Some (OSError 28, 1))\<rparr>
       ''/srv/rems/examples/1d_signal.py''
       \<lparr>files = [''/srv/rems/examples/1d_signal.bson'' \<mapsto> [[]]], handles = [], oplog = []\<rparr>
   = (Inl (OSError 28),
      \<lparr>files = [''/srv/rems/examples/1d_signal.bson'' \<mapsto> [document]],
       handles = [],
       oplog = [OpOpen ''/srv/rems/examples/1d_signal.bson'',
                OpWrite ''/srv/rems/examples/1d_signal.bson'',
                OpClose ''/srv/rems/examples/1d_signal.bson'']\<rparr>)
   \<and> \<not> writable \<lparr>open_error = (\<lambda>p. None), write_error = (\<lambda>p data. Some (OSError 28, 1))\<rparr>
        ''/srv/rems/examples/1d_signal.bson'' [document, document]
   \<and> main (\<lambda>d. [d, d]) \<lparr>open_error = (\<lambda>p. Some (OSError 13)), write_error = (\<lambda>p data. None)\<rparr>
       ''/srv/rems/examples/1d_signal.py''
       \<lparr>files = [''/srv/rems/examples/1d_signal.bson'' \<mapsto> [[]]], handles = [], oplog = []\<rparr>
   = (Inl (OSError 13),
      \<lparr>files = [''/srv/rems/examples/1d_signal.bson'' \<mapsto> [[]]],
       handles = [],
       oplog = [OpOpen ''/srv/rems/examples/1d_signal.bson'']\<rparr>)
   \<and> \<not> writable \<lparr>open_error = (\<lambda>p. Some (OSError 13)), write_error = (\<lambda>p data. None)\<rparr>
        ''/srv/rems/examples/1d_signal.bson'' [document, document]"
proof -
  have run1: "main (\<lambda>d. [d, d]) \<lparr>open_error = (\<lambda>p. None), write_error = (\<lambda>p data. Some (OSError 28, 1))\<rparr>
       ''/srv/rems/examples/1d_signal.py''
       \<lparr>files = [''/srv/rems/examples/1d_signal.bson'' \<mapsto> [[]]], handles = [], oplog = []\<rparr>
   = (Inl (OSError 28),
      \<lparr>files = [''/srv/rems/examples/1d_signal.bson'' \<mapsto> [document]],
       handles = [],
       oplog = [OpOpen ''/srv/rems/examples/1d_signal.bson'',
                OpWrite ''/srv/rems/examples/1d_signal.bson'',
                OpClose ''/srv/rems/examples/1d_signal.bson'']\<rparr>)"
    by (simp add: main_def open_bw_def file_write_def file_close_def logged_def Let_def
        output_path_example)
  have run2: "main (\<lambda>d. [d, d]) \<lparr>open_error = (\<lambda>p. Some (OSError 13)), write_error = (\<lambda>p data. None)\<rparr>
       ''/srv/rems/examples/1d_signal.py''
       \<lparr>files = [''/srv/rems/examples/1d_signal.bson'' \<mapsto> [[]]], handles = [], oplog = []\<rparr>
   = (Inl (OSError 13),
      \<lparr>files = [''/srv/rems/examples/1d_signal.bson'' \<mapsto> [[]]],
       handles = [],
       oplog = [OpOpen ''/srv/rems/examples/1d_signal.bson'']\<rparr>)"
    by (simp add: main_def open_bw_def file_write_def file_close_def logged_def Let_def
        output_path_example)
  show ?thesis
    using run1 run2 C8_failure_modes [OF run1] C8_failure_modes [OF run2]
    by (simp add: output_path_example)
qed

end
